theory Spec2Isabelle
  imports Main "HOL-Library.Word"
begin

unbundle bit_operations_syntax

section \<open>Machine values\<close>

text \<open>
  The two programs compute on \<^verbatim>\<open>uint8_t\<close>, \<^verbatim>\<open>uint16_t\<close> and \<^verbatim>\<open>uint32_t\<close>; on words
  \<open>+\<close>, \<open>-\<close> and \<open>*\<close> wrap modulo \<open>2 ^ 32\<close> as unsigned C arithmetic does. An operand of
  type \<^verbatim>\<open>int\<close> (a promoted \<^verbatim>\<open>uint8_t\<close>) is kept as its 32-bit two's complement pattern and
  read with \<open>sint\<close>.
\<close>

type_synonym u8 = "8 word"
type_synonym u16 = "16 word"
type_synonym u32 = "32 word"
type_synonym c_int = "32 word"

text \<open>
  An \<open>outcome\<close> is the value a 32-bit two's complement machine computes together with a
  flag that tells whether ISO C defines every operation that led to it: a shift whose
  count is negative or not below the width, a left shift of an \<^verbatim>\<open>int\<close> whose result does
  not fit \<^verbatim>\<open>int\<close>, and an array read outside the array clear the flag.
\<close>

datatype 'a outcome = Outcome (defined: bool) (val: 'a)

definition ret :: "'a \<Rightarrow> 'a outcome" where
  "ret x = Outcome True x"

definition andthen :: "'a outcome \<Rightarrow> ('a \<Rightarrow> 'b outcome) \<Rightarrow> 'b outcome" where
  "andthen m f = Outcome (defined m \<and> defined (f (val m))) (val (f (val m)))"

definition shift_ok :: "int \<Rightarrow> bool" where
  "shift_ok n = (0 \<le> n \<and> n < 32)"

text \<open>\<^verbatim>\<open>x << n\<close> and \<^verbatim>\<open>x >> n\<close> on a \<^verbatim>\<open>uint32_t\<close>.\<close>

definition shl_u32 :: "u32 \<Rightarrow> int \<Rightarrow> u32 outcome" where
  "shl_u32 x n = Outcome (shift_ok n) (push_bit (nat n) x)"

definition shr_u32 :: "u32 \<Rightarrow> int \<Rightarrow> u32 outcome" where
  "shr_u32 x n = Outcome (shift_ok n) (drop_bit (nat n) x)"

text \<open>
  \<^verbatim>\<open>b << n\<close> and \<^verbatim>\<open>b >> n\<close> on an \<^verbatim>\<open>int\<close>: ISO C defines the left shift of a
  non-negative \<open>v\<close> only when \<open>v * 2 ^ n\<close> is at most \<^verbatim>\<open>INT_MAX\<close>. The right shift of a
  negative \<^verbatim>\<open>int\<close> is implementation-defined; the programs never shift one, and the model
  gives it no meaning (the flag is cleared).
\<close>

definition promote :: "'a::len word \<Rightarrow> c_int" where
  "promote b = ucast b"

definition shl_int :: "c_int \<Rightarrow> int \<Rightarrow> c_int outcome" where
  "shl_int v n =
     Outcome (shift_ok n \<and> 0 \<le> sint v \<and> sint v * 2 ^ nat n < 2 ^ 31) (push_bit (nat n) v)"

definition shr_int :: "c_int \<Rightarrow> int \<Rightarrow> c_int outcome" where
  "shr_int v n = Outcome (shift_ok n \<and> 0 \<le> sint v) (drop_bit (nat n) v)"

text \<open>\<^verbatim>\<open>key[i]\<close> on an array of bytes.\<close>

definition index :: "u8 list \<Rightarrow> nat \<Rightarrow> u8 outcome" where
  "index key i = (if i < length key then Outcome True (key ! i) else Outcome False 0)"

subsection \<open>Object representations\<close>

text \<open>
  \<^verbatim>\<open>memcpy\<close> from an integer object copies its bytes in the host's order, and a read
  through a \<^verbatim>\<open>const uint32_t*\<close> assembles four bytes in the host's order. The host's byte
  order is a parameter of the model.
\<close>

datatype endian = Little | Big

definition bytes_u32 :: "u32 \<Rightarrow> u8 list" where
  "bytes_u32 w = [ucast w, ucast (drop_bit 8 w), ucast (drop_bit 16 w), ucast (drop_bit 24 w)]"

definition bytes_u16 :: "u16 \<Rightarrow> u8 list" where
  "bytes_u16 w = [ucast w, ucast (drop_bit 8 w)]"

definition host_order :: "endian \<Rightarrow> u8 list \<Rightarrow> u8 list" where
  "host_order e bs = (case e of Little \<Rightarrow> bs | Big \<Rightarrow> rev bs)"

definition store_u32 :: "endian \<Rightarrow> u32 \<Rightarrow> u8 list" where
  "store_u32 e w = host_order e (bytes_u32 w)"

definition store_u16 :: "endian \<Rightarrow> u16 \<Rightarrow> u8 list" where
  "store_u16 e w = host_order e (bytes_u16 w)"

fun word_of_bytes :: "u8 list \<Rightarrow> u32" where
  "word_of_bytes [] = 0"
| "word_of_bytes (b # bs) = ucast b OR push_bit 8 (word_of_bytes bs)"

definition load_u32 :: "endian \<Rightarrow> u8 list \<Rightarrow> u32" where
  "load_u32 e bs = word_of_bytes (host_order e bs)"

subsection \<open>Local arrays\<close>

text \<open>
  Both programs fill a local array of 13 bytes that they do not initialise: when a call
  starts, its cells hold whatever earlier calls left on the stack. A \<open>frame\<close> gives the
  contents of these cells; a call receives the frame as it finds it and returns it as
  it leaves it. \<^verbatim>\<open>memcpy\<close> to offset \<open>off\<close> overwrites the cells from \<open>off\<close> on with the bytes
  copied, and \<open>cells13\<close> reads the 13 cells of the array, which is what a pointer to the
  array and the length 13 give the callee.
\<close>

type_synonym frame = "nat \<Rightarrow> u8"

definition memcpy :: "frame \<Rightarrow> nat \<Rightarrow> u8 list \<Rightarrow> frame" where
  "memcpy m off bs = (\<lambda>i. if off \<le> i \<and> i < off + length bs then bs ! (i - off) else m i)"

definition cells13 :: "frame \<Rightarrow> u8 list" where
  "cells13 m = [m 0, m 1, m 2, m 3, m 4, m 5, m 6, m 7, m 8, m 9, m 10, m 11, m 12]"

section \<open>Variant A: \<^verbatim>\<open>5-tuple-murmur3-hash.c\<close>\<close>

text \<open>\<^verbatim>\<open>rotl32\<close>: \<^verbatim>\<open>(x << r) | (x >> (32 - r))\<close>.\<close>

definition rotl32 :: "u32 \<Rightarrow> int \<Rightarrow> u32 outcome" where
  "rotl32 x r =
     andthen (shl_u32 x r) (\<lambda>hi.
     andthen (shr_u32 x (32 - r)) (\<lambda>lo.
     ret (hi OR lo)))"

definition c1 :: u32 where "c1 = 0xcc9e2d51"
definition c2 :: u32 where "c2 = 0x1b873593"

text \<open>
  \<^verbatim>\<open>blocks[i]\<close>, where \<^verbatim>\<open>blocks\<close> is \<^verbatim>\<open>key\<close> cast to \<^verbatim>\<open>const uint32_t*\<close>: the four bytes
  from offset \<open>4 * i\<close>, assembled in the host's order. The alignment of \<^verbatim>\<open>key\<close> and the
  aliasing of a byte array through a word pointer are matters of memory layout and are
  not modelled.
\<close>

definition block :: "endian \<Rightarrow> u8 list \<Rightarrow> nat \<Rightarrow> u32 outcome" where
  "block e key i =
     (if 4 * i + 4 \<le> length key
      then Outcome True (load_u32 e (take 4 (drop (4 * i) key)))
      else Outcome False 0)"

text \<open>The \<^verbatim>\<open>for\<close> loop of \<^verbatim>\<open>murmur3_32\<close>, started at \<open>i\<close> with accumulator \<open>h1\<close>.\<close>

function murmur3_blocks :: "endian \<Rightarrow> u8 list \<Rightarrow> nat \<Rightarrow> nat \<Rightarrow> u32 \<Rightarrow> u32 outcome" where
  "murmur3_blocks e key nblocks i h1 =
     (if i < nblocks then
        andthen (block e key i) (\<lambda>k1.
        let k1 = k1 * c1 in
        andthen (rotl32 k1 15) (\<lambda>k1.
        let k1 = k1 * c2;
            h1 = h1 XOR k1 in
        andthen (rotl32 h1 13) (\<lambda>h1.
        let h1 = h1 * 5 + 0xe6546b64 in
        murmur3_blocks e key nblocks (i + 1) h1)))
      else ret h1)"
  by pat_completeness auto
termination
  by (relation "measure (\<lambda>(e, key, nblocks, i, h1). nblocks - i)") auto

declare murmur3_blocks.simps [simp del]

text \<open>
  The \<^verbatim>\<open>switch (len & 3)\<close> of \<^verbatim>\<open>murmur3_32\<close>: case 3 falls through to case 2 and case 2
  to case 1; \<open>t\<close> is the offset \<^verbatim>\<open>nblocks * 4\<close> of \<^verbatim>\<open>tail\<close> in \<^verbatim>\<open>key\<close>.
\<close>

definition murmur3_tail :: "u8 list \<Rightarrow> nat \<Rightarrow> nat \<Rightarrow> u32 \<Rightarrow> u32 outcome" where
  "murmur3_tail key len t h1 =
     (let sel = len mod 4; k1 = 0 in
      andthen (if sel = 3
               then andthen (index key (t + 2)) (\<lambda>b.
                    andthen (shl_int (promote b) 16) (\<lambda>s. ret (k1 XOR s)))
               else ret k1) (\<lambda>k1.
      andthen (if sel = 3 \<or> sel = 2
               then andthen (index key (t + 1)) (\<lambda>b.
                    andthen (shl_int (promote b) 8) (\<lambda>s. ret (k1 XOR s)))
               else ret k1) (\<lambda>k1.
      if sel = 3 \<or> sel = 2 \<or> sel = 1
      then andthen (index key t) (\<lambda>b.
           let k1 = k1 XOR promote b;
               k1 = k1 * c1 in
           andthen (rotl32 k1 15) (\<lambda>k1.
           let k1 = k1 * c2 in
           ret (h1 XOR k1)))
      else ret h1)))"

text \<open>The last six statements of \<^verbatim>\<open>murmur3_32\<close>; \<^verbatim>\<open>len\<close> is a \<^verbatim>\<open>size_t\<close>.\<close>

definition murmur3_fmix :: "nat \<Rightarrow> u32 \<Rightarrow> u32 outcome" where
  "murmur3_fmix len h1 =
     (let h1 = h1 XOR of_nat len in
      andthen (shr_u32 h1 16) (\<lambda>s.
      let h1 = h1 XOR s;
          h1 = h1 * 0x85ebca6b in
      andthen (shr_u32 h1 13) (\<lambda>s.
      let h1 = h1 XOR s;
          h1 = h1 * 0xc2b2ae35 in
      andthen (shr_u32 h1 16) (\<lambda>s.
      ret (h1 XOR s)))))"

definition murmur3_32 :: "endian \<Rightarrow> u8 list \<Rightarrow> nat \<Rightarrow> u32 \<Rightarrow> u32 outcome" where
  "murmur3_32 e key len seed =
     (let h1 = seed;
          nblocks = len div 4 in
      andthen (murmur3_blocks e key nblocks 0 h1) (\<lambda>h1.
      andthen (murmur3_tail key len (nblocks * 4) h1) (\<lambda>h1.
      murmur3_fmix len h1)))"

text \<open>
  The array \<^verbatim>\<open>data\<close> of \<^verbatim>\<open>murmurhash3_5tuple\<close> after the four \<^verbatim>\<open>memcpy\<close> calls (to the
  offsets 0, 4, 8 and 10, of 4, 4, 2 and 2 bytes) and the assignment to \<^verbatim>\<open>data[12]\<close>.
\<close>

definition murmur3_data :: "endian \<Rightarrow> u32 \<Rightarrow> u32 \<Rightarrow> u16 \<Rightarrow> u16 \<Rightarrow> u8 \<Rightarrow> u8 list" where
  "murmur3_data e src_ip dst_ip src_port dst_port protocol =
     store_u32 e src_ip @ store_u32 e dst_ip @ store_u16 e src_port @ store_u16 e dst_port
       @ [protocol]"

definition murmurhash3_5tuple ::
  "endian \<Rightarrow> u32 \<Rightarrow> u32 \<Rightarrow> u16 \<Rightarrow> u16 \<Rightarrow> u8 \<Rightarrow> u32 \<Rightarrow> u32 outcome" where
  "murmurhash3_5tuple e src_ip dst_ip src_port dst_port protocol seed =
     (let data = murmur3_data e src_ip dst_ip src_port dst_port protocol in
      murmur3_32 e data (length data) seed)"

text \<open>
  A call of \<^verbatim>\<open>murmurhash3_5tuple\<close> on the stack as earlier calls left it: the four
  \<^verbatim>\<open>memcpy\<close> calls and the assignment to \<^verbatim>\<open>data[12]\<close> write into the frame, \<^verbatim>\<open>murmur3_32\<close>
  reads the array, and the frame stays behind as the call leaves it.
\<close>

definition murmurhash3_5tuple_call ::
  "endian \<Rightarrow> u32 \<Rightarrow> u32 \<Rightarrow> u16 \<Rightarrow> u16 \<Rightarrow> u8 \<Rightarrow> u32 \<Rightarrow> frame \<Rightarrow> u32 outcome \<times> frame" where
  "murmurhash3_5tuple_call e src_ip dst_ip src_port dst_port protocol seed data =
     (let data = memcpy data 0 (store_u32 e src_ip);
          data = memcpy data 4 (store_u32 e dst_ip);
          data = memcpy data 8 (store_u16 e src_port);
          data = memcpy data 10 (store_u16 e dst_port);
          data = data(12 := protocol)
      in (murmur3_32 e (cells13 data) 13 seed, data))"

section \<open>Variant B: the lookup3 program\<close>

text \<open>The macro \<^verbatim>\<open>rot(x,k)\<close>: \<^verbatim>\<open>(((x)<<(k)) | ((x)>>(32-(k))))\<close>.\<close>

definition rot :: "u32 \<Rightarrow> int \<Rightarrow> u32 outcome" where
  "rot x k =
     andthen (shl_u32 x k) (\<lambda>hi.
     andthen (shr_u32 x (32 - k)) (\<lambda>lo.
     ret (hi OR lo)))"

text \<open>The macro \<^verbatim>\<open>mix(a,b,c)\<close>, one line of the macro per line.\<close>

definition mix :: "u32 \<Rightarrow> u32 \<Rightarrow> u32 \<Rightarrow> (u32 \<times> u32 \<times> u32) outcome" where
  "mix a b c =
     (let a = a - c in andthen (rot c 4) (\<lambda>r. let a = a XOR r; c = c + b in
      let b = b - a in andthen (rot a 6) (\<lambda>r. let b = b XOR r; a = a + c in
      let c = c - b in andthen (rot b 8) (\<lambda>r. let c = c XOR r; b = b + a in
      let a = a - c in andthen (rot c 16) (\<lambda>r. let a = a XOR r; c = c + b in
      let b = b - a in andthen (rot a 19) (\<lambda>r. let b = b XOR r; a = a + c in
      let c = c - b in andthen (rot b 4) (\<lambda>r. let c = c XOR r; b = b + a in
      ret (a, b, c))))))))"

text \<open>The macro \<^verbatim>\<open>final(a,b,c)\<close>, one line of the macro per line.\<close>

definition final :: "u32 \<Rightarrow> u32 \<Rightarrow> u32 \<Rightarrow> (u32 \<times> u32 \<times> u32) outcome" where
  "final a b c =
     (let c = c XOR b in andthen (rot b 14) (\<lambda>r. let c = c - r in
      let a = a XOR c in andthen (rot c 11) (\<lambda>r. let a = a - r in
      let b = b XOR a in andthen (rot a 25) (\<lambda>r. let b = b - r in
      let c = c XOR b in andthen (rot b 16) (\<lambda>r. let c = c - r in
      let a = a XOR c in andthen (rot c 4) (\<lambda>r. let a = a - r in
      let b = b XOR a in andthen (rot a 14) (\<lambda>r. let b = b - r in
      let c = c XOR b in andthen (rot b 24) (\<lambda>r. let c = c - r in
      ret (a, b, c)))))))))"

text \<open>
  The array \<^verbatim>\<open>key\<close> of \<^verbatim>\<open>jenkins_hash_5tuple\<close> after its thirteen assignments. The ports
  are \<^verbatim>\<open>uint16_t\<close> and are promoted to \<^verbatim>\<open>int\<close> before \<^verbatim>\<open>>>\<close> and \<^verbatim>\<open>&\<close>.
\<close>

definition jenkins_key :: "u32 \<Rightarrow> u32 \<Rightarrow> u16 \<Rightarrow> u16 \<Rightarrow> u8 \<Rightarrow> u8 list outcome" where
  "jenkins_key src_ip dst_ip src_port dst_port protocol =
     andthen (shr_u32 src_ip 8) (\<lambda>s1.
     andthen (shr_u32 src_ip 16) (\<lambda>s2.
     andthen (shr_u32 src_ip 24) (\<lambda>s3.
     andthen (shr_u32 dst_ip 8) (\<lambda>d1.
     andthen (shr_u32 dst_ip 16) (\<lambda>d2.
     andthen (shr_u32 dst_ip 24) (\<lambda>d3.
     andthen (shr_int (promote src_port) 8) (\<lambda>p1.
     andthen (shr_int (promote dst_port) 8) (\<lambda>q1.
     ret [ucast (src_ip AND 0xFF), ucast (s1 AND 0xFF), ucast (s2 AND 0xFF), ucast (s3 AND 0xFF),
          ucast (dst_ip AND 0xFF), ucast (d1 AND 0xFF), ucast (d2 AND 0xFF), ucast (d3 AND 0xFF),
          ucast (promote src_port AND 0xFF), ucast (p1 AND 0xFF),
          ucast (promote dst_port AND 0xFF), ucast (q1 AND 0xFF),
          protocol]))))))))"

text \<open>
  \<^verbatim>\<open>k0 | (k1 << 8) | (k2 << 16) | (k3 << 24)\<close> on four \<^verbatim>\<open>uint8_t\<close>: every operand is
  promoted to \<^verbatim>\<open>int\<close>, so the three shifts and the two \<^verbatim>\<open>|\<close> are on \<^verbatim>\<open>int\<close>; the
  conversion to \<^verbatim>\<open>uint32_t\<close> that \<^verbatim>\<open>+=\<close> applies keeps the 32-bit pattern.
\<close>

definition le_word :: "u8 \<Rightarrow> u8 \<Rightarrow> u8 \<Rightarrow> u8 \<Rightarrow> u32 outcome" where
  "le_word k0 k1 k2 k3 =
     andthen (shl_int (promote k1) 8) (\<lambda>s1.
     andthen (shl_int (promote k2) 16) (\<lambda>s2.
     andthen (shl_int (promote k3) 24) (\<lambda>s3.
     ret (promote k0 OR s1 OR s2 OR s3))))"

text \<open>
  The state \<^verbatim>\<open>(a, b, c)\<close> of \<^verbatim>\<open>jenkins_hash_5tuple\<close> before \<^verbatim>\<open>final\<close>: the initialisation,
  the three \<^verbatim>\<open>+=\<close> of the 12-byte block and the \<^verbatim>\<open>switch (length - 12)\<close>.
\<close>

definition jenkins_absorb :: "u8 list \<Rightarrow> u32 \<Rightarrow> (u32 \<times> u32 \<times> u32) outcome" where
  "jenkins_absorb key seed =
     (let length = 13;
          c = 0xdeadbeef + length + seed;
          b = c;
          a = b in
      andthen (le_word (key ! 0) (key ! 1) (key ! 2) (key ! 3)) (\<lambda>w. let a = a + w in
      andthen (le_word (key ! 4) (key ! 5) (key ! 6) (key ! 7)) (\<lambda>w. let b = b + w in
      andthen (le_word (key ! 8) (key ! 9) (key ! 10) (key ! 11)) (\<lambda>w. let c = c + w in
      let a = (if length - 12 = 1 then a + promote (key ! 12) else a) in
      ret (a, b, c)))))"

definition jenkins_hash_5tuple :: "u32 \<Rightarrow> u32 \<Rightarrow> u16 \<Rightarrow> u16 \<Rightarrow> u8 \<Rightarrow> u32 \<Rightarrow> u32 outcome" where
  "jenkins_hash_5tuple src_ip dst_ip src_port dst_port protocol seed =
     andthen (jenkins_key src_ip dst_ip src_port dst_port protocol) (\<lambda>key.
     andthen (jenkins_absorb key seed) (\<lambda>(a, b, c).
     andthen (final a b c) (\<lambda>(a, b, c).
     ret c)))"

text \<open>
  A call of \<^verbatim>\<open>jenkins_hash_5tuple\<close> on the stack as earlier calls left it: the thirteen
  assignments write into the frame of \<^verbatim>\<open>key\<close>, in the order of the source, and the rest
  of the function reads the array.
\<close>

definition jenkins_key_call :: "u32 \<Rightarrow> u32 \<Rightarrow> u16 \<Rightarrow> u16 \<Rightarrow> u8 \<Rightarrow> frame \<Rightarrow> frame outcome" where
  "jenkins_key_call src_ip dst_ip src_port dst_port protocol key =
     (let key = key(0 := ucast (src_ip AND 0xFF)) in
      andthen (shr_u32 src_ip 8) (\<lambda>s. let key = key(1 := ucast (s AND 0xFF)) in
      andthen (shr_u32 src_ip 16) (\<lambda>s. let key = key(2 := ucast (s AND 0xFF)) in
      andthen (shr_u32 src_ip 24) (\<lambda>s. let key = key(3 := ucast (s AND 0xFF)) in
      let key = key(4 := ucast (dst_ip AND 0xFF)) in
      andthen (shr_u32 dst_ip 8) (\<lambda>s. let key = key(5 := ucast (s AND 0xFF)) in
      andthen (shr_u32 dst_ip 16) (\<lambda>s. let key = key(6 := ucast (s AND 0xFF)) in
      andthen (shr_u32 dst_ip 24) (\<lambda>s. let key = key(7 := ucast (s AND 0xFF)) in
      let key = key(8 := ucast (promote src_port AND 0xFF)) in
      andthen (shr_int (promote src_port) 8) (\<lambda>s. let key = key(9 := ucast (s AND 0xFF)) in
      let key = key(10 := ucast (promote dst_port AND 0xFF)) in
      andthen (shr_int (promote dst_port) 8) (\<lambda>s. let key = key(11 := ucast (s AND 0xFF)) in
      let key = key(12 := protocol) in
      ret key)))))))))"

definition jenkins_hash_5tuple_call ::
  "u32 \<Rightarrow> u32 \<Rightarrow> u16 \<Rightarrow> u16 \<Rightarrow> u8 \<Rightarrow> u32 \<Rightarrow> frame \<Rightarrow> u32 outcome \<times> frame" where
  "jenkins_hash_5tuple_call src_ip dst_ip src_port dst_port protocol seed key =
     (let packed = jenkins_key_call src_ip dst_ip src_port dst_port protocol key in
      (andthen packed (\<lambda>key.
       andthen (jenkins_absorb (cells13 key) seed) (\<lambda>(a, b, c).
       andthen (final a b c) (\<lambda>(a, b, c).
       ret c))),
       val packed))"

section \<open>Reference definitions\<close>

text \<open>
  The number a byte sequence denotes when it is read least significant byte first: a
  field is stored little-endian in a run of bytes exactly when the run has this value.
\<close>

fun le_value :: "u8 list \<Rightarrow> nat" where
  "le_value [] = 0"
| "le_value (b # bs) = unat b + 256 * le_value bs"

text \<open>
  Key serialization as the specification words it: the fields in the order source
  address, destination address, source port, destination port, protocol, each as its
  base-256 digits from the least significant one, with nothing between them.
\<close>

primrec le_bytes :: "nat \<Rightarrow> nat \<Rightarrow> u8 list" where
  "le_bytes 0 v = []"
| "le_bytes (Suc n) v = of_nat (v mod 256) # le_bytes n (v div 256)"

definition serialize :: "u32 \<Rightarrow> u32 \<Rightarrow> u16 \<Rightarrow> u16 \<Rightarrow> u8 \<Rightarrow> u8 list" where
  "serialize src_ip dst_ip src_port dst_port protocol =
     le_bytes 4 (unat src_ip) @ le_bytes 4 (unat dst_ip) @ le_bytes 2 (unat src_port)
       @ le_bytes 2 (unat dst_port) @ [protocol]"

text \<open>The \<open>i\<close>-th 4-byte little-endian block of a key.\<close>

definition le_block :: "u8 list \<Rightarrow> nat \<Rightarrow> u32" where
  "le_block key i = of_nat (le_value (take 4 (drop (4 * i) key)))"

text \<open>
  Variant A as the specification words it. A block is multiplied by \<open>0xcc9e2d51\<close>, rotated
  left by 15 and multiplied by \<open>0x1b873593\<close> (\<open>scramble\<close>); a full block is then
  exclusive-ored into the accumulator, which is rotated left by 13 and set to
  accumulator times 5 plus \<open>0xe6546b64\<close> (\<open>mix_block\<close>). The finalization (\<open>avalanche\<close>)
  is shift-right-16 exclusive-or, multiply by \<open>0x85ebca6b\<close>, shift-right-13 exclusive-or,
  multiply by \<open>0xc2b2ae35\<close>, shift-right-16 exclusive-or. Rotation is the library's
  \<open>word_rotl\<close>.
\<close>

definition scramble :: "u32 \<Rightarrow> u32" where
  "scramble k = word_rotl 15 (k * 0xcc9e2d51) * 0x1b873593"

definition mix_block :: "u32 \<Rightarrow> u32 \<Rightarrow> u32" where
  "mix_block h k = word_rotl 13 (h XOR scramble k) * 5 + 0xe6546b64"

definition avalanche :: "u32 \<Rightarrow> u32" where
  "avalanche h =
     (let h = h XOR drop_bit 16 h;
          h = h * 0x85ebca6b;
          h = h XOR drop_bit 13 h;
          h = h * 0xc2b2ae35
      in h XOR drop_bit 16 h)"

definition murmur3_reference :: "u32 \<Rightarrow> u32 \<Rightarrow> u16 \<Rightarrow> u16 \<Rightarrow> u8 \<Rightarrow> u32 \<Rightarrow> u32" where
  "murmur3_reference src_ip dst_ip src_port dst_port protocol seed =
     (let key = serialize src_ip dst_ip src_port dst_port protocol;
          h = seed;
          h = mix_block h (le_block key 0);
          h = mix_block h (le_block key 1);
          h = mix_block h (le_block key 2);
          h = h XOR scramble (ucast (key ! 12));
          h = h XOR 13
      in avalanche h)"

text \<open>
  One paired operation of the finalization of Variant B: exclusive-or a word \<open>y\<close> into a
  word \<open>x\<close> and subtract \<open>y\<close> rotated left by \<open>k\<close>. \<open>final_six\<close> is the finalization of six
  paired operations with the rotate sequence 14, 11, 25, 16, 4, 14 that the specification
  words; \<open>final_seven\<close> continues it with a seventh on word C, with rotate count 24.
\<close>

definition xor_sub :: "u32 \<Rightarrow> u32 \<Rightarrow> nat \<Rightarrow> u32" where
  "xor_sub x y k = (x XOR y) - word_rotl k y"

definition final_six :: "u32 \<Rightarrow> u32 \<Rightarrow> u32 \<Rightarrow> u32 \<times> u32 \<times> u32" where
  "final_six a b c =
     (let c = xor_sub c b 14;
          a = xor_sub a c 11;
          b = xor_sub b a 25;
          c = xor_sub c b 16;
          a = xor_sub a c 4;
          b = xor_sub b a 14
      in (a, b, c))"

definition final_seven :: "u32 \<Rightarrow> u32 \<Rightarrow> u32 \<Rightarrow> u32 \<times> u32 \<times> u32" where
  "final_seven a b c =
     (case final_six a b c of (a, b, c) \<Rightarrow> (a, b, xor_sub c b 24))"

definition word_c :: "u32 \<times> u32 \<times> u32 \<Rightarrow> u32" where
  "word_c s = (case s of (a, b, c) \<Rightarrow> c)"

text \<open>
  The mixing step of Variant B as the specification words it: six paired operations, each
  a subtraction, a rotate-and-exclusive-or and an addition, applied to \<open>(A, B, C)\<close>,
  \<open>(B, C, A)\<close>, \<open>(C, A, B)\<close> in turn with the rotate amounts 4, 6, 8, 16, 19, 4.
\<close>

definition mix_step :: "nat \<Rightarrow> u32 \<times> u32 \<times> u32 \<Rightarrow> u32 \<times> u32 \<times> u32" where
  "mix_step k s = (case s of (x, y, z) \<Rightarrow> ((x - z) XOR word_rotl k z, y, z + y))"

definition rotate3 :: "u32 \<times> u32 \<times> u32 \<Rightarrow> u32 \<times> u32 \<times> u32" where
  "rotate3 s = (case s of (x, y, z) \<Rightarrow> (y, z, x))"

definition mix_reference :: "u32 \<Rightarrow> u32 \<Rightarrow> u32 \<Rightarrow> u32 \<times> u32 \<times> u32" where
  "mix_reference a b c =
     (let s = (a, b, c);
          s = rotate3 (mix_step 4 s);
          s = rotate3 (mix_step 6 s);
          s = rotate3 (mix_step 8 s);
          s = rotate3 (mix_step 16 s);
          s = rotate3 (mix_step 19 s);
          s = rotate3 (mix_step 4 s)
      in s)"

text \<open>
  Reading the fields back from a 13-byte key: from the little-endian layout, and from
  the array that \<^verbatim>\<open>memcpy\<close> fills on a host of byte order \<open>e\<close>.
\<close>

definition decode_key :: "u8 list \<Rightarrow> u32 \<times> u32 \<times> u16 \<times> u16 \<times> u8" where
  "decode_key key =
     (of_nat (le_value (take 4 key)), of_nat (le_value (take 4 (drop 4 key))),
      of_nat (le_value (take 2 (drop 8 key))), of_nat (le_value (take 2 (drop 10 key))),
      key ! 12)"

definition decode_data :: "endian \<Rightarrow> u8 list \<Rightarrow> u32 \<times> u32 \<times> u16 \<times> u16 \<times> u8" where
  "decode_data e data =
     decode_key (host_order e (take 4 data) @ host_order e (take 4 (drop 4 data))
       @ host_order e (take 2 (drop 8 data)) @ host_order e (take 2 (drop 10 data))
       @ drop 12 data)"

section \<open>Basic facts\<close>

lemmas outcome_defs =
  ret_def andthen_def shl_u32_def shr_u32_def shl_int_def shr_int_def shift_ok_def

lemma sint_promote [simp]:
  fixes b :: "'a::len word"
  assumes "LENGTH('a) < 32"
  shows "sint (promote b) = uint b"
proof -
  have "(2::int) ^ LENGTH('a) \<le> 2 ^ 31"
    using assms by (intro power_increasing) simp_all
  then have "uint b < 2 ^ 31"
    using uint_bounded [of b] by linarith
  moreover have "- (2 ^ 31) \<le> uint b"
    by (rule order_trans [of _ 0]) simp_all
  ultimately have "signed_take_bit 31 (uint b) = uint b"
    by (rule signed_take_bit_int_eq_self [rotated])
  then show ?thesis
    by (simp add: promote_def signed_ucast_eq)
qed

lemma byte_mask: "(0xFF :: 'a::len word) = mask 8"
  by (simp add: mask_eq_exp_minus_1)

lemma ucast_and_byte [simp]: "(ucast (w AND 0xFF :: 'a::len word) :: u8) = ucast w"
  by (rule bit_word_eqI) (auto simp add: byte_mask bit_simps dest: bit_imp_le_length)

lemma ucast_promote_byte [simp]: "(ucast (promote (w :: 'a::len word)) :: u8) = ucast w"
  by (rule bit_word_eqI) (auto simp add: promote_def bit_simps dest: bit_imp_le_length)

lemma ucast_drop_promote_byte [simp]:
  "(ucast (drop_bit 8 (promote (w :: u16))) :: u8) = ucast (drop_bit 8 w)"
  by (rule bit_word_eqI) (auto simp add: promote_def bit_simps dest: bit_imp_le_length)

lemma unat_byte_of_word:
  "unat (ucast (drop_bit k (w :: 'a::len word)) :: u8) = (unat w div 2 ^ k) mod 256"
proof -
  have "unat (ucast (drop_bit k w) :: u8) = take_bit 8 (unat (drop_bit k w))"
    by (simp only: unsigned_ucast_eq) simp
  also have "\<dots> = take_bit 8 (drop_bit k (unat w))"
    by (simp only: unat_drop_bit_eq)
  also have "\<dots> = (unat w div 2 ^ k) mod 256"
    by (simp add: take_bit_eq_mod drop_bit_eq_div)
  finally show ?thesis .
qed

lemma digits4:
  fixes n :: nat
  assumes "n < 2 ^ 32"
  shows "n mod 256 + 256 * (n div 256 mod 256 + 256 * (n div 65536 mod 256
           + 256 * (n div 16777216 mod 256))) = n"
proof -
  define a where "a = n div 256"
  define b where "b = a div 256"
  define c where "c = b div 256"
  have 1: "n div 65536 = b"
    unfolding b_def a_def by (simp add: div_mult2_eq [symmetric])
  have 2: "n div 16777216 = c"
    unfolding c_def b_def a_def by (simp add: div_mult2_eq [symmetric])
  have 3: "c < 256"
    using assms unfolding 2 [symmetric] by simp
  have "c mod 256 = c"
    using 3 by simp
  moreover have "b mod 256 + 256 * c = b"
    unfolding c_def by simp
  moreover have "a mod 256 + 256 * b = a"
    unfolding b_def by simp
  moreover have "n mod 256 + 256 * a = n"
    unfolding a_def by simp
  ultimately show ?thesis
    unfolding 1 2 a_def [symmetric] by simp
qed

lemma digits2:
  fixes n :: nat
  assumes "n < 2 ^ 16"
  shows "n mod 256 + 256 * (n div 256 mod 256) = n"
proof -
  have "n div 256 < 256"
    using assms by simp
  then show ?thesis by simp
qed

lemma le_value_bytes_u32 [simp]: "le_value (bytes_u32 w) = unat w"
proof -
  have b: "unat w < 2 ^ 32"
    using unsigned_less [of w, where 'a = nat] by simp
  have 0: "unat (ucast w :: u8) = unat w mod 256"
    using unat_byte_of_word [of 0 w] by simp
  have c: "unat w div 16777216 < 256"
    using b by simp
  show ?thesis
    unfolding bytes_u32_def le_value.simps 0 unat_byte_of_word
    using digits4 [OF b] c by simp
qed

lemma le_value_bytes_u16 [simp]: "le_value (bytes_u16 w) = unat w"
proof -
  have b: "unat w < 2 ^ 16"
    using unsigned_less [of w, where 'a = nat] by simp
  have 0: "unat (ucast w :: u8) = unat w mod 256"
    using unat_byte_of_word [of 0 w] by simp
  show ?thesis
    unfolding bytes_u16_def le_value.simps 0 unat_byte_of_word
    using digits2 [OF b] by simp
qed

lemma length_bytes [simp]: "length (bytes_u32 w) = 4" "length (bytes_u16 v) = 2"
  by (simp_all add: bytes_u32_def bytes_u16_def)

text \<open>The key of Variant B is the little-endian object representation of the fields.\<close>

lemma jenkins_key_bytes:
  "jenkins_key src_ip dst_ip src_port dst_port protocol =
     Outcome True (bytes_u32 src_ip @ bytes_u32 dst_ip @ bytes_u16 src_port
       @ bytes_u16 dst_port @ [protocol])"
  by (simp add: jenkins_key_def outcome_defs bytes_u32_def bytes_u16_def)

lemma murmur3_data_Little:
  "murmur3_data Little src_ip dst_ip src_port dst_port protocol =
     bytes_u32 src_ip @ bytes_u32 dst_ip @ bytes_u16 src_port @ bytes_u16 dst_port @ [protocol]"
  by (simp add: murmur3_data_def store_u32_def store_u16_def host_order_def)

subsection \<open>Outcomes\<close>

lemma val_andthen [simp]: "val (andthen m f) = val (f (val m))"
  by (simp add: andthen_def)

lemma defined_andthen [simp]: "defined (andthen m f) = (defined m \<and> defined (f (val m)))"
  by (simp add: andthen_def)

lemma val_ret [simp]: "val (ret x) = x"
  by (simp add: ret_def)

lemma defined_ret [simp]: "defined (ret x)"
  by (simp add: ret_def)

lemma outcome_eq_iff: "(m = Outcome d x) = (defined m = d \<and> val m = x)"
  by (cases m) auto

lemma outcome_eqI: "defined m = defined m' \<Longrightarrow> val m = val m' \<Longrightarrow> m = m'"
  by (cases m; cases m') simp

subsection \<open>Rotation by shifts\<close>

lemma shift_rotl:
  fixes x :: u32
  assumes n: "0 < n" "n < 32"
  shows "push_bit n x OR drop_bit (32 - n) x = word_rotl n x"
proof (rule bit_word_eqI)
  fix i assume "i < LENGTH(32)"
  then have i: "i < 32" by simp
  show "bit (push_bit n x OR drop_bit (32 - n) x) i = bit (word_rotl n x) i"
  proof (cases "n \<le> i")
    case True
    then have m: "(i + (32 - n)) mod 32 = i - n"
      using n i by (simp add: mod_if)
    have "\<not> bit x (32 - n + i)"
      using True n by (auto dest!: bit_imp_le_length)
    with True n i m show ?thesis by (simp add: bit_simps)
  next
    case False
    then have "(i + (32 - n)) mod 32 = 32 - n + i"
      using n i by (simp add: ac_simps)
    with False n i show ?thesis by (simp add: bit_simps)
  qed
qed

lemma defined_rot [simp]: "defined (rot x k) = (0 < k \<and> k < 32)"
  by (auto simp add: rot_def shl_u32_def shr_u32_def shift_ok_def)

lemma val_rot: "0 < k \<Longrightarrow> k < 32 \<Longrightarrow> val (rot x k) = word_rotl (nat k) x"
  using shift_rotl [of "nat k" x]
  by (simp add: rot_def shl_u32_def shr_u32_def nat_diff_distrib')

lemma val_rot_numeral [simp]:
  "0 < (numeral n :: int) \<Longrightarrow> numeral n < (32::int) \<Longrightarrow>
   val (rot x (numeral n)) = word_rotl (numeral n) x"
  using val_rot [of "numeral n" x] by simp

lemma defined_rotl32 [simp]: "defined (rotl32 x r) = (0 < r \<and> r < 32)"
  by (auto simp add: rotl32_def shl_u32_def shr_u32_def shift_ok_def)

lemma val_rotl32: "0 < r \<Longrightarrow> r < 32 \<Longrightarrow> val (rotl32 x r) = word_rotl (nat r) x"
  using shift_rotl [of "nat r" x]
  by (simp add: rotl32_def shl_u32_def shr_u32_def nat_diff_distrib')

lemma val_rotl32_numeral [simp]:
  "0 < (numeral n :: int) \<Longrightarrow> numeral n < (32::int) \<Longrightarrow>
   val (rotl32 x (numeral n)) = word_rotl (numeral n) x"
  using val_rotl32 [of "numeral n" x] by simp

subsection \<open>Bytes and words\<close>

lemma word_of_bytes_le_value: "word_of_bytes bs = of_nat (le_value bs)"
proof (induction bs)
  case Nil
  show ?case by simp
next
  case (Cons b bs)
  have "ucast b OR push_bit 8 (word_of_bytes bs)
      = (ucast b :: u32) + push_bit 8 (word_of_bytes bs)"
    by (rule disjunctive_add [symmetric]) (auto simp: bit_simps dest: bit_imp_le_length)
  then show ?case
    using Cons by (simp add: push_bit_eq_mult)
qed

lemma val_le_word: "val (le_word k0 k1 k2 k3) = word_of_bytes [k0, k1, k2, k3]"
  by (simp add: le_word_def shl_int_def promote_def push_bit_or or.assoc)

lemma val_le_word_le_value: "val (le_word k0 k1 k2 k3) = of_nat (le_value [k0, k1, k2, k3])"
  by (simp only: val_le_word word_of_bytes_le_value)

lemma defined_le_word: "defined (le_word k0 k1 k2 k3) = (k3 < 0x80)"
proof -
  have "uint k1 < 256" "uint k2 < 256"
    using uint_bounded [of k1] uint_bounded [of k2] by simp_all
  then show ?thesis
    by (simp add: le_word_def shl_int_def shift_ok_def word_less_def)
qed

subsection \<open>The finalization of Variant B\<close>

lemma final_eq: "final a b c = Outcome True (final_seven a b c)"
  by (simp add: outcome_eq_iff final_def final_seven_def final_six_def xor_sub_def Let_def)

lemma jenkins_hash_val:
  "val (jenkins_hash_5tuple src_ip dst_ip src_port dst_port protocol seed) =
     (case val (jenkins_absorb (val (jenkins_key src_ip dst_ip src_port dst_port protocol)) seed)
      of (a, b, c) \<Rightarrow> (case val (final a b c) of (a', b', c') \<Rightarrow> c'))"
  by (simp add: jenkins_hash_5tuple_def split_def)

subsection \<open>The steps of Variant A are injective\<close>

lemma mult_odd_inj:
  fixes x y c d :: u32
  assumes "c * d = 1" "x * c = y * c"
  shows "x = y"
proof -
  have "x * c * d = y * c * d"
    using assms(2) by simp
  then show ?thesis
    using assms(1) by (simp add: mult.assoc)
qed

lemma xorshift16_inj:
  fixes x y :: u32
  assumes "x XOR drop_bit 16 x = y XOR drop_bit 16 y"
  shows "x = y"
proof -
  have inv: "(z XOR drop_bit 16 z) XOR drop_bit 16 (z XOR drop_bit 16 z) = z" for z :: u32
    by (simp add: xor.assoc)
  from assms have "(x XOR drop_bit 16 x) XOR drop_bit 16 (x XOR drop_bit 16 x)
      = (y XOR drop_bit 16 y) XOR drop_bit 16 (y XOR drop_bit 16 y)"
    by simp
  then show ?thesis by (simp only: inv)
qed

lemma xorshift13_inj:
  fixes x y :: u32
  assumes "x XOR drop_bit 13 x = y XOR drop_bit 13 y"
  shows "x = y"
proof -
  have inv: "(z XOR drop_bit 13 z) XOR drop_bit 13 (z XOR drop_bit 13 z)
      XOR drop_bit 26 (z XOR drop_bit 13 z) = z" for z :: u32
    by (simp add: xor.assoc xor.left_commute)
  from assms have "(x XOR drop_bit 13 x) XOR drop_bit 13 (x XOR drop_bit 13 x)
        XOR drop_bit 26 (x XOR drop_bit 13 x)
      = (y XOR drop_bit 13 y) XOR drop_bit 13 (y XOR drop_bit 13 y)
        XOR drop_bit 26 (y XOR drop_bit 13 y)"
    by simp
  then show ?thesis by (simp only: inv)
qed

lemma word_rotl_inj: "word_rotl n x = word_rotl n y \<Longrightarrow> x = y"
  by (metis word_rot_lr)

lemma scramble_inj:
  assumes "scramble x = scramble y"
  shows "x = y"
proof -
  have "word_rotl 15 (x * 0xcc9e2d51) = word_rotl 15 (y * 0xcc9e2d51)"
    using assms unfolding scramble_def
    by (rule mult_odd_inj [of "0x1b873593" "0x56ed309b", rotated]) simp
  then have "x * 0xcc9e2d51 = y * 0xcc9e2d51"
    by (rule word_rotl_inj)
  then show ?thesis
    by (rule mult_odd_inj [of "0xcc9e2d51" "0xdee13bb1", rotated]) simp
qed

lemma avalanche_inj:
  assumes "avalanche x = avalanche y"
  shows "x = y"
proof -
  let ?f = "\<lambda>h :: u32. h XOR drop_bit 16 h"
  let ?g = "\<lambda>h :: u32. h XOR drop_bit 13 h"
  from assms have "?f (?g (?f x * 0x85ebca6b) * 0xc2b2ae35)
      = ?f (?g (?f y * 0x85ebca6b) * 0xc2b2ae35)"
    by (simp add: avalanche_def Let_def)
  then have "?g (?f x * 0x85ebca6b) * 0xc2b2ae35 = ?g (?f y * 0x85ebca6b) * 0xc2b2ae35"
    by (rule xorshift16_inj)
  then have "?g (?f x * 0x85ebca6b) = ?g (?f y * 0x85ebca6b)"
    by (rule mult_odd_inj [of "0xc2b2ae35" "0x7ed1b41d", rotated]) simp
  then have "?f x * 0x85ebca6b = ?f y * 0x85ebca6b"
    by (rule xorshift13_inj)
  then have "?f x = ?f y"
    by (rule mult_odd_inj [of "0x85ebca6b" "0xa5cb9243", rotated]) simp
  then show ?thesis
    by (rule xorshift16_inj)
qed

subsection \<open>The parts of \<^verbatim>\<open>murmur3_32\<close> on a little-endian host\<close>

lemma rotl32_eq: "0 < r \<Longrightarrow> r < 32 \<Longrightarrow> rotl32 x r = Outcome True (word_rotl (nat r) x)"
  by (simp add: outcome_eq_iff val_rotl32)

lemma andthen_Outcome_True [simp]: "andthen (Outcome True x) f = f x"
  by (cases "f x") (simp add: andthen_def)

lemma block_Little:
  "4 * i + 4 \<le> length key \<Longrightarrow> block Little key i = Outcome True (le_block key i)"
  by (simp add: block_def load_u32_def host_order_def le_block_def word_of_bytes_le_value)

lemma murmur3_blocks_step:
  assumes "i < nblocks" "4 * i + 4 \<le> length key" "j = i + 1"
  shows "murmur3_blocks Little key nblocks i h1 =
           murmur3_blocks Little key nblocks j (mix_block h1 (le_block key i))"
  using assms
  by (subst murmur3_blocks.simps)
     (simp add: block_Little rotl32_eq Let_def mix_block_def scramble_def c1_def c2_def)

lemma murmur3_blocks_done: "murmur3_blocks e key nblocks nblocks h1 = Outcome True h1"
  by (subst murmur3_blocks.simps) (simp add: ret_def)

lemma murmur3_tail_1:
  assumes "len mod 4 = 1" "t < length key"
  shows "murmur3_tail key len t h1 = Outcome True (h1 XOR scramble (ucast (key ! t)))"
  using assms
  by (simp add: murmur3_tail_def index_def rotl32_eq Let_def scramble_def c1_def c2_def promote_def ret_def)

lemma murmur3_fmix_eq: "murmur3_fmix len h1 = Outcome True (avalanche (h1 XOR of_nat len))"
  by (simp add: murmur3_fmix_def avalanche_def shr_u32_def shift_ok_def Let_def ret_def)


lemma byte_of_nat0: "(of_nat (unat w mod 256) :: u8) = ucast (w :: 'a::len word)"
proof -
  have "(of_nat (unat w mod 256) :: u8) = of_nat (unat w)"
    by (simp only: word_of_nat_eq_iff) (simp add: take_bit_eq_mod)
  then show ?thesis
    by (simp only: of_nat_unat)
qed

lemma byte_of_nat: "(of_nat (unat w div 2 ^ k mod 256) :: u8) = ucast (drop_bit k (w :: 'a::len word))"
proof -
  have eq: "unat w div 2 ^ k = unat (drop_bit k w)"
    by (simp only: unat_drop_bit_eq drop_bit_eq_div [where 'a = nat])
  show ?thesis
    unfolding eq by (rule byte_of_nat0)
qed

lemma le_bytes_numeral:
  "le_bytes (numeral n) v = of_nat (v mod 256) # le_bytes (pred_numeral n) (v div 256)"
  by (subst numeral_eq_Suc) simp


lemma le_bytes_1: "le_bytes 1 v = [of_nat (v mod 256)]"
  unfolding One_nat_def by simp

lemma bytes_u32_le_bytes: "le_bytes 4 (unat w) = bytes_u32 w"
proof -
  have "le_bytes 4 (unat w) = [of_nat (unat w div 2 ^ 0 mod 256), of_nat (unat w div 2 ^ 8 mod 256),
      of_nat (unat w div 2 ^ 16 mod 256), of_nat (unat w div 2 ^ 24 mod 256)]"
    by (simp add: le_bytes_numeral le_bytes_1 div_mult2_eq [symmetric])
  then show ?thesis
    by (simp only: byte_of_nat bytes_u32_def drop_bit_0 id_apply)
qed

lemma bytes_u16_le_bytes: "le_bytes 2 (unat w) = bytes_u16 w"
proof -
  have "le_bytes 2 (unat w) = [of_nat (unat w div 2 ^ 0 mod 256), of_nat (unat w div 2 ^ 8 mod 256)]"
    by (simp add: le_bytes_numeral le_bytes_1)
  then show ?thesis
    by (simp only: byte_of_nat bytes_u16_def drop_bit_0 id_apply)
qed

lemma serialize_eq:
  "serialize src_ip dst_ip src_port dst_port protocol =
     bytes_u32 src_ip @ bytes_u32 dst_ip @ bytes_u16 src_port @ bytes_u16 dst_port @ [protocol]"
  by (simp add: serialize_def bytes_u32_le_bytes bytes_u16_le_bytes)

lemma length_key13: "length (bytes_u32 a @ bytes_u32 b @ bytes_u16 c @ bytes_u16 d @ [p]) = 13"
  by simp


lemma murmur3_blocks_3:
  assumes "12 \<le> length key"
  shows "murmur3_blocks Little key 3 0 h1 =
     Outcome True (mix_block (mix_block (mix_block h1 (le_block key 0)) (le_block key 1)) (le_block key 2))"
proof -
  have "murmur3_blocks Little key 3 0 h1 = murmur3_blocks Little key 3 1 (mix_block h1 (le_block key 0))"
    by (rule murmur3_blocks_step) (use assms in simp_all)
  also have "\<dots> = murmur3_blocks Little key 3 2 (mix_block (mix_block h1 (le_block key 0)) (le_block key 1))"
    by (rule murmur3_blocks_step) (use assms in simp_all)
  also have "\<dots> = murmur3_blocks Little key 3 3
      (mix_block (mix_block (mix_block h1 (le_block key 0)) (le_block key 1)) (le_block key 2))"
    by (rule murmur3_blocks_step) (use assms in simp_all)
  finally show ?thesis
    by (simp add: murmur3_blocks_done)
qed


subsection \<open>The digest of Variant A on either host\<close>

lemma load_store_u32 [simp]: "load_u32 e (store_u32 e w) = w"
  by (cases e) (simp_all add: load_u32_def store_u32_def host_order_def word_of_bytes_le_value
      del: le_value.simps)

lemma length_store [simp]: "length (store_u32 e w) = 4" "length (store_u16 e v) = 2"
  by (cases e; simp add: store_u32_def store_u16_def host_order_def)+

lemma length_murmur3_data [simp]:
  "length (murmur3_data e src_ip dst_ip src_port dst_port protocol) = 13"
  by (simp add: murmur3_data_def)

lemma murmur3_blocks_step_host:
  assumes "i < nblocks" "4 * i + 4 \<le> length key" "j = i + 1"
  shows "murmur3_blocks e key nblocks i h1 =
           murmur3_blocks e key nblocks j (mix_block h1 (load_u32 e (take 4 (drop (4 * i) key))))"
  using assms
  by (subst murmur3_blocks.simps)
     (simp add: block_def rotl32_eq Let_def mix_block_def scramble_def c1_def c2_def)

lemma murmur3_blocks_3_host:
  assumes "12 \<le> length key"
  shows "murmur3_blocks e key 3 0 h1 =
     Outcome True (mix_block (mix_block (mix_block h1 (load_u32 e (take 4 key)))
       (load_u32 e (take 4 (drop 4 key)))) (load_u32 e (take 4 (drop 8 key))))"
proof -
  have "murmur3_blocks e key 3 0 h1 =
      murmur3_blocks e key 3 1 (mix_block h1 (load_u32 e (take 4 (drop (4 * 0) key))))"
    by (rule murmur3_blocks_step_host) (use assms in simp_all)
  also have "\<dots> = murmur3_blocks e key 3 2 (mix_block (mix_block h1 (load_u32 e (take 4 (drop (4 * 0) key))))
       (load_u32 e (take 4 (drop (4 * 1) key))))"
    by (rule murmur3_blocks_step_host) (use assms in simp_all)
  also have "\<dots> = murmur3_blocks e key 3 3
      (mix_block (mix_block (mix_block h1 (load_u32 e (take 4 (drop (4 * 0) key))))
       (load_u32 e (take 4 (drop (4 * 1) key)))) (load_u32 e (take 4 (drop (4 * 2) key))))"
    by (rule murmur3_blocks_step_host) (use assms in simp_all)
  finally show ?thesis
    by (simp add: murmur3_blocks_done)
qed

lemma murmurhash3_5tuple_host:
  "murmurhash3_5tuple e src_ip dst_ip src_port dst_port protocol seed =
     Outcome True (avalanche
       ((mix_block (mix_block (mix_block seed src_ip) dst_ip)
           (load_u32 e (store_u16 e src_port @ store_u16 e dst_port))
         XOR scramble (ucast protocol)) XOR 13))"
proof -
  let ?key = "murmur3_data e src_ip dst_ip src_port dst_port protocol"
  have blocks: "murmur3_blocks e ?key 3 0 h =
      Outcome True (mix_block (mix_block (mix_block h src_ip) dst_ip)
           (load_u32 e (store_u16 e src_port @ store_u16 e dst_port)))" for h
    by (subst murmur3_blocks_3_host) (simp_all add: murmur3_data_def)
  have tail: "murmur3_tail ?key 13 12 h = Outcome True (h XOR scramble (ucast protocol))" for h
    by (subst murmur3_tail_1) (simp_all add: murmur3_data_def nth_append)
  have main: "murmur3_32 e ?key 13 seed = Outcome True (avalanche
       ((mix_block (mix_block (mix_block seed src_ip) dst_ip)
           (load_u32 e (store_u16 e src_port @ store_u16 e dst_port))
         XOR scramble (ucast protocol)) XOR 13))"
    by (simp add: murmur3_32_def blocks tail murmur3_fmix_eq Let_def)
  show ?thesis
    unfolding murmurhash3_5tuple_def Let_def length_murmur3_data by (fact main)
qed

lemma ucast_byte_inj: "(ucast (p :: u8) :: u32) = ucast q \<Longrightarrow> p = q"
proof -
  assume "(ucast p :: u32) = ucast q"
  then have "(ucast (ucast p :: u32) :: u8) = ucast (ucast q :: u32)" by simp
  moreover have "(ucast (ucast r :: u32) :: u8) = r" for r
    by (rule bit_word_eqI) (simp add: bit_simps)
  ultimately show "p = q" by simp
qed

lemma xor_left_inj: "(a :: u32) XOR b = a XOR c \<Longrightarrow> b = c"
  by (metis xor.left_commute xor_self_eq xor.right_neutral)

subsection \<open>Variant B\<close>

lemma mix_eq: "mix a b c = Outcome True (mix_reference a b c)"
  by (simp add: outcome_eq_iff mix_def mix_reference_def mix_step_def rotate3_def Let_def)

lemma word_rotl_shift:
  "0 < n \<Longrightarrow> n < 32 \<Longrightarrow> word_rotl n (x :: u32) = push_bit n x OR drop_bit (32 - n) x"
  by (simp add: shift_rotl)

lemma absorb_val:
  "val (jenkins_absorb (bytes_u32 src_ip @ bytes_u32 dst_ip @ bytes_u16 src_port @ bytes_u16 dst_port @ [protocol]) seed) =
     (0xdeadbeef + 13 + seed + of_nat (le_value (bytes_u32 src_ip)) + ucast protocol,
      0xdeadbeef + 13 + seed + of_nat (le_value (bytes_u32 dst_ip)),
      0xdeadbeef + 13 + seed + of_nat (le_value (bytes_u16 src_port @ bytes_u16 dst_port)))"
  by (simp add: jenkins_absorb_def val_le_word_le_value Let_def bytes_u32_def bytes_u16_def promote_def
       del: le_value.simps le_value_bytes_u32 le_value_bytes_u16)

lemma jenkins_hash_final_seven:
  "val (jenkins_hash_5tuple src_ip dst_ip src_port dst_port protocol seed) =
     word_c (case val (jenkins_absorb (val (jenkins_key src_ip dst_ip src_port dst_port protocol)) seed)
             of (a, b, c) \<Rightarrow> final_seven a b c)"
  by (simp add: final_eq jenkins_hash_val word_c_def split_def)

lemma le_value_append: "le_value (xs @ ys) = le_value xs + 256 ^ length xs * le_value ys"
  by (induction xs) (simp_all add: algebra_simps)

lemma high_byte_less:
  "((ucast (drop_bit 24 (w :: u32)) :: u8) < 0x80) = (w < 0x80000000)"
proof -
  have b: "unat w < 2 ^ 32"
    using unsigned_less [of w, where 'a = nat] by simp
  then have "unat w div 2 ^ 24 < 256" by simp
  then have "unat (ucast (drop_bit 24 w) :: u8) = unat w div 2 ^ 24"
    by (simp add: unat_byte_of_word)
  moreover have "(unat w div 2 ^ 24 < 128) = (unat w < 2 ^ 31)"
    by (simp add: div_less_iff_less_mult)
  ultimately show ?thesis
    by (simp add: word_less_nat_alt)
qed

lemma high_byte_less16:
  "((ucast (drop_bit 8 (w :: u16)) :: u8) < 0x80) = (w < 0x8000)"
proof -
  have b: "unat w < 2 ^ 16"
    using unsigned_less [of w, where 'a = nat] by simp
  then have "unat w div 2 ^ 8 < 256" by simp
  then have "unat (ucast (drop_bit 8 w) :: u8) = unat w div 2 ^ 8"
    by (simp add: unat_byte_of_word)
  moreover have "(unat w div 2 ^ 8 < 128) = (unat w < 2 ^ 15)"
    by (simp add: div_less_iff_less_mult)
  ultimately show ?thesis
    by (simp add: word_less_nat_alt)
qed

lemma host_order_store [simp]:
  "host_order e (store_u32 e w) = bytes_u32 w" "host_order e (store_u16 e v) = bytes_u16 v"
  by (cases e; simp add: store_u32_def store_u16_def host_order_def)+

lemma murmur3_data_fields:
  "take 4 (murmur3_data e a b c d p) = store_u32 e a"
  "take 4 (drop 4 (murmur3_data e a b c d p)) = store_u32 e b"
  "take 2 (drop 8 (murmur3_data e a b c d p)) = store_u16 e c"
  "take 2 (drop 10 (murmur3_data e a b c d p)) = store_u16 e d"
  "drop 12 (murmur3_data e a b c d p) = [p]"
  by (simp_all add: murmur3_data_def)

lemma word_of_bytes_u32: "word_of_bytes (bytes_u32 w) = w"
  by (simp add: word_of_bytes_le_value del: le_value.simps)

lemma ports_low: "(ucast (word_of_bytes (bytes_u16 p @ bytes_u16 q)) :: u16) = p"
proof (rule bit_word_eqI)
  fix n assume "n < LENGTH(16)"
  then have n: "n < 16" by simp
  then consider "n < 8" | "8 \<le> n" "n < 16" by linarith
  then show "bit (ucast (word_of_bytes (bytes_u16 p @ bytes_u16 q)) :: u16) n = bit p n"
    by cases (auto simp add: bytes_u16_def bit_simps dest: bit_imp_le_length)
qed

lemma ports_high: "(ucast (drop_bit 16 (word_of_bytes (bytes_u16 p @ bytes_u16 q))) :: u16) = q"
proof (rule bit_word_eqI)
  fix n assume "n < LENGTH(16)"
  then have n: "n < 16" by simp
  then consider "n < 8" | "8 \<le> n" "n < 16" by linarith
  then show "bit (ucast (drop_bit 16 (word_of_bytes (bytes_u16 p @ bytes_u16 q))) :: u16) n = bit q n"
    by cases (auto simp add: bytes_u16_def bit_simps dest: bit_imp_le_length)
qed

lemma absorbed_words:
  "(let key = val (jenkins_key src_ip dst_ip src_port dst_port protocol);
        w0 = val (le_word (key ! 0) (key ! 1) (key ! 2) (key ! 3));
        w1 = val (le_word (key ! 4) (key ! 5) (key ! 6) (key ! 7));
        w2 = val (le_word (key ! 8) (key ! 9) (key ! 10) (key ! 11))
    in (w0, w1, ucast w2, ucast (drop_bit 16 w2), key ! 12)) =
   (src_ip, dst_ip, src_port, dst_port, protocol)"
proof -
  have 0: "word_of_bytes [ucast w, ucast (drop_bit 8 w), ucast (drop_bit 16 w), ucast (drop_bit 24 w)] = w"
    for w :: u32
    using word_of_bytes_u32 [of w] by (simp only: bytes_u32_def)
  have 1: "(ucast (word_of_bytes [ucast p, ucast (drop_bit 8 p), ucast q, ucast (drop_bit 8 q)]) :: u16) = p"
    for p q :: u16
    using ports_low [of p q] by (simp only: bytes_u16_def append.simps)
  have 2: "(ucast (drop_bit 16 (word_of_bytes [ucast p, ucast (drop_bit 8 p), ucast q, ucast (drop_bit 8 q)])) :: u16) = q"
    for p q :: u16
    using ports_high [of p q] by (simp only: bytes_u16_def append.simps)
  show ?thesis
    by (simp add: Let_def jenkins_key_bytes val_le_word bytes_u32_def bytes_u16_def 0 1 2
         del: word_of_bytes.simps)
qed

lemma murmurhash3_defined: "defined (murmurhash3_5tuple e src_ip dst_ip src_port dst_port protocol seed)"
  by (simp add: murmurhash3_5tuple_host)

subsection \<open>Calls on a used stack\<close>

lemma cells13_murmur3_call:
  "cells13 ((memcpy (memcpy (memcpy (memcpy data 0 (store_u32 e src_ip)) 4 (store_u32 e dst_ip))
       8 (store_u16 e src_port)) 10 (store_u16 e dst_port))(12 := protocol)) =
     murmur3_data e src_ip dst_ip src_port dst_port protocol"
  by (cases e) (simp_all add: cells13_def memcpy_def murmur3_data_def store_u32_def store_u16_def
      host_order_def bytes_u32_def bytes_u16_def)

lemma murmurhash3_5tuple_call_digest:
  "fst (murmurhash3_5tuple_call e src_ip dst_ip src_port dst_port protocol seed data) =
     murmurhash3_5tuple e src_ip dst_ip src_port dst_port protocol seed"
  by (simp add: murmurhash3_5tuple_call_def murmurhash3_5tuple_def cells13_murmur3_call Let_def)

lemma jenkins_key_call_cells:
  "defined (jenkins_key_call src_ip dst_ip src_port dst_port protocol key) \<and>
   cells13 (val (jenkins_key_call src_ip dst_ip src_port dst_port protocol key)) =
     val (jenkins_key src_ip dst_ip src_port dst_port protocol)"
  by (simp add: jenkins_key_call_def jenkins_key_bytes cells13_def shr_u32_def shr_int_def
       shift_ok_def bytes_u32_def bytes_u16_def Let_def)

lemma jenkins_hash_5tuple_call_digest:
  "fst (jenkins_hash_5tuple_call src_ip dst_ip src_port dst_port protocol seed key) =
     jenkins_hash_5tuple src_ip dst_ip src_port dst_port protocol seed"
  by (rule outcome_eqI)
     (simp_all add: jenkins_hash_5tuple_call_def jenkins_hash_5tuple_def jenkins_key_call_cells
       jenkins_key_bytes Let_def)

section \<open>Key serialization\<close>

text \<open>
  Both programs build a key of exactly 13 bytes: bytes 0-3 hold the source address,
  bytes 4-7 the destination address, bytes 8-9 the source port and bytes 10-11 the
  destination port, each least significant byte first, and byte 12 is the protocol;
  nothing lies between the fields. Variant B does so by shifts and masks on every host,
  Variant A by \<^verbatim>\<open>memcpy\<close> on a little-endian host, where it builds the same array; on
  either host the array of Variant A has 13 bytes and the protocol is byte 12.
\<close>

theorem key_layout:
  "defined (jenkins_key src_ip dst_ip src_port dst_port protocol) \<and>
   (let key = val (jenkins_key src_ip dst_ip src_port dst_port protocol) in
      length key = 13 \<and>
      le_value (take 4 key) = unat src_ip \<and>
      le_value (take 4 (drop 4 key)) = unat dst_ip \<and>
      le_value (take 2 (drop 8 key)) = unat src_port \<and>
      le_value (take 2 (drop 10 key)) = unat dst_port \<and>
      key ! 12 = protocol \<and>
      murmur3_data Little src_ip dst_ip src_port dst_port protocol = key) \<and>
   length (murmur3_data e src_ip dst_ip src_port dst_port protocol) = 13 \<and>
   murmur3_data e src_ip dst_ip src_port dst_port protocol ! 12 = protocol"
  by (simp add: jenkins_key_bytes murmur3_data_Little nth_append)
    (simp add: murmur3_data_def nth_append)

text \<open>
  C5 fails for Variant A on a big-endian host, by the defect of \<open>murmur3_host_dependent\<close>
  below: \<^verbatim>\<open>memcpy\<close> copies every field most significant byte first. For the sample
  5-tuple of \<^verbatim>\<open>main\<close> bytes 0-3 are \<open>C0 A8 01 01\<close>, which read least significant byte
  first give 16885952 and not the source address, and bytes 8-9 are \<open>30 39\<close>, not the
  source port 12345 least significant byte first.
\<close>

theorem murmur3_data_big_endian:
  "murmur3_data Big 0xC0A80101 0x08080808 12345 80 6 =
     [0xC0, 0xA8, 0x01, 0x01, 0x08, 0x08, 0x08, 0x08, 0x30, 0x39, 0x00, 0x50, 0x06] \<and>
   le_value (take 4 (murmur3_data Big 0xC0A80101 0x08080808 12345 80 6)) = 16885952 \<and>
   le_value (take 4 (murmur3_data Big 0xC0A80101 0x08080808 12345 80 6)) \<noteq> unat (0xC0A80101 :: u32) \<and>
   le_value (take 2 (drop 8 (murmur3_data Big 0xC0A80101 0x08080808 12345 80 6))) \<noteq> unat (12345 :: u16)"
  by (simp add: murmur3_data_def store_u32_def store_u16_def host_order_def bytes_u32_def bytes_u16_def)


section \<open>Determinism\<close>

text \<open>
  C7. No state persists between calls. The one thing a call of either variant finds
  from earlier calls is the contents of its uninitialised local array, and every cell
  the call reads it has written first: run on any two stacks \<open>s\<close> and \<open>s'\<close>, a call with
  the same 5-tuple and seed returns the same digest, and so does a call that runs on
  the stack another call (with any other 5-tuple and seed) has just left. The digest
  is the one the function of the arguments alone gives.
\<close>

theorem calls_leave_no_state:
  "fst (murmurhash3_5tuple_call e src_ip dst_ip src_port dst_port protocol seed s) =
     fst (murmurhash3_5tuple_call e src_ip dst_ip src_port dst_port protocol seed s') \<and>
   fst (jenkins_hash_5tuple_call src_ip dst_ip src_port dst_port protocol seed s) =
     fst (jenkins_hash_5tuple_call src_ip dst_ip src_port dst_port protocol seed s') \<and>
   fst (murmurhash3_5tuple_call e src_ip dst_ip src_port dst_port protocol seed
         (snd (murmurhash3_5tuple_call e src_ip' dst_ip' src_port' dst_port' protocol' seed' s))) =
     fst (murmurhash3_5tuple_call e src_ip dst_ip src_port dst_port protocol seed s) \<and>
   fst (jenkins_hash_5tuple_call src_ip dst_ip src_port dst_port protocol seed
         (snd (jenkins_hash_5tuple_call src_ip' dst_ip' src_port' dst_port' protocol' seed' s))) =
     fst (jenkins_hash_5tuple_call src_ip dst_ip src_port dst_port protocol seed s) \<and>
   fst (murmurhash3_5tuple_call e src_ip dst_ip src_port dst_port protocol seed s) =
     murmurhash3_5tuple e src_ip dst_ip src_port dst_port protocol seed \<and>
   fst (jenkins_hash_5tuple_call src_ip dst_ip src_port dst_port protocol seed s) =
     jenkins_hash_5tuple src_ip dst_ip src_port dst_port protocol seed"
  by (simp only: murmurhash3_5tuple_call_digest jenkins_hash_5tuple_call_digest simp_thms)

section \<open>Variant A\<close>

text \<open>
  On a little-endian host, for every 5-tuple and seed the digest of Variant A is
  defined and is the reference computation: the accumulator starts at the seed; each of
  the three 4-byte little-endian blocks of the serialized key is multiplied by
  \<open>0xcc9e2d51\<close>, rotated left by 15, multiplied by \<open>0x1b873593\<close> and exclusive-ored into the
  accumulator, which is then rotated left by 13 and set to accumulator times 5 plus
  \<open>0xe6546b64\<close>; after the tail byte the accumulator is exclusive-ored with the length 13
  and put through the avalanche with multipliers \<open>0x85ebca6b\<close> and \<open>0xc2b2ae35\<close> and
  shifts 16, 13, 16.
\<close>

theorem murmurhash3_reference:
  "murmurhash3_5tuple Little src_ip dst_ip src_port dst_port protocol seed =
     Outcome True (murmur3_reference src_ip dst_ip src_port dst_port protocol seed)"
proof -
  let ?key = "murmur3_data Little src_ip dst_ip src_port dst_port protocol"
  have len: "length ?key = 13"
    by (simp add: murmur3_data_Little)
  have ser: "serialize src_ip dst_ip src_port dst_port protocol = ?key"
    by (simp add: serialize_eq murmur3_data_Little)
  have blocks: "murmur3_blocks Little ?key 3 0 h =
      Outcome True (mix_block (mix_block (mix_block h (le_block ?key 0)) (le_block ?key 1))
        (le_block ?key 2))" for h
    by (rule murmur3_blocks_3) (simp add: len)
  have tail: "murmur3_tail ?key 13 12 h = Outcome True (h XOR scramble (ucast (?key ! 12)))" for h
    by (rule murmur3_tail_1) (simp_all add: len)
  have main: "murmur3_32 Little ?key 13 seed =
      Outcome True (murmur3_reference src_ip dst_ip src_port dst_port protocol seed)"
    by (simp add: murmur3_32_def blocks tail murmur3_fmix_eq murmur3_reference_def ser Let_def)
  show ?thesis
    unfolding murmurhash3_5tuple_def Let_def len by (fact main)
qed



text \<open>
  C1 fails on a big-endian host, by the defect of \<open>murmur3_host_dependent\<close> below: there
  the blocks that \<^verbatim>\<open>murmur3_32\<close> reads are not the little-endian blocks of the serialized
  key. For the sample 5-tuple and seed of \<^verbatim>\<open>main\<close> the digest is 290174495, whereas
  the reference computation gives 1419635995.
\<close>

theorem murmur3_reference_big_endian:
  "murmurhash3_5tuple Big 0xC0A80101 0x08080808 12345 80 6 0x12345678 = Outcome True 290174495 \<and>
   murmur3_reference 0xC0A80101 0x08080808 12345 80 6 0x12345678 = 1419635995 \<and>
   val (murmurhash3_5tuple Big 0xC0A80101 0x08080808 12345 80 6 0x12345678) \<noteq>
     murmur3_reference 0xC0A80101 0x08080808 12345 80 6 0x12345678"
proof -
  have 1: "murmurhash3_5tuple Big 0xC0A80101 0x08080808 12345 80 6 0x12345678 = Outcome True 290174495"
    by (simp add: murmurhash3_5tuple_host avalanche_def mix_block_def scramble_def store_u16_def
         load_u32_def host_order_def bytes_u16_def word_rotl_shift Let_def)
  have "murmurhash3_5tuple Little 0xC0A80101 0x08080808 12345 80 6 0x12345678 = Outcome True 1419635995"
    by (simp add: murmurhash3_5tuple_host avalanche_def mix_block_def scramble_def store_u16_def
         load_u32_def host_order_def bytes_u16_def word_rotl_shift Let_def)
  then have 2: "murmur3_reference 0xC0A80101 0x08080808 12345 80 6 0x12345678 = 1419635995"
    by (simp only: murmurhash3_reference outcome.inject) 
  show ?thesis
    unfolding 1 2 by simp
qed

text \<open>
  C4. On either host, for every 5-tuple and seed, the one trailing byte of the key (the
  protocol) is widened to a 32-bit word, multiplied by \<open>0xcc9e2d51\<close>, rotated left by 15,
  multiplied by \<open>0x1b873593\<close> and exclusive-ored into the accumulator that the three
  blocks left, before the finalization. The step is never skipped: two 5-tuples that
  differ in the protocol alone never have the same digest.
\<close>

theorem tail_byte_mixed:
  "(let h3 = mix_block (mix_block (mix_block seed src_ip) dst_ip)
               (load_u32 e (store_u16 e src_port @ store_u16 e dst_port))
    in murmurhash3_5tuple e src_ip dst_ip src_port dst_port protocol seed =
         Outcome True (avalanche ((h3 XOR scramble (ucast protocol)) XOR 13))) \<and>
   (murmurhash3_5tuple e src_ip dst_ip src_port dst_port protocol seed =
      murmurhash3_5tuple e src_ip dst_ip src_port dst_port protocol' seed)
     = (protocol = protocol')"
proof -
  let ?h3 = "mix_block (mix_block (mix_block seed src_ip) dst_ip)
               (load_u32 e (store_u16 e src_port @ store_u16 e dst_port))"
  have "protocol = protocol'"
    if "avalanche ((?h3 XOR scramble (ucast protocol)) XOR 13)
      = avalanche ((?h3 XOR scramble (ucast protocol')) XOR 13)"
  proof -
    from that have "(?h3 XOR scramble (ucast protocol)) XOR 13 = (?h3 XOR scramble (ucast protocol')) XOR 13"
      by (rule avalanche_inj)
    then have "13 XOR (?h3 XOR scramble (ucast protocol)) = 13 XOR (?h3 XOR scramble (ucast protocol'))"
      by (simp only: xor.commute)
    then have "?h3 XOR scramble (ucast protocol) = ?h3 XOR scramble (ucast protocol')"
      by (rule xor_left_inj)
    then have "scramble (ucast protocol) = scramble (ucast protocol')"
      by (rule xor_left_inj)
    then have "(ucast protocol :: u32) = ucast protocol'"
      by (rule scramble_inj)
    then show ?thesis
      by (rule ucast_byte_inj)
  qed
  then show ?thesis
    by (auto simp add: murmurhash3_5tuple_host Let_def)
qed



section \<open>Variant B\<close>

text \<open>
  C3. For every 5-tuple and seed the three state words of Variant B start from the same
  value \<open>0xdeadbeef + 13 + seed\<close> (modulo \<open>2 ^ 32\<close>); the little-endian word of key bytes 0-3
  is added into A, that of bytes 4-7 into B, that of bytes 8-11 into C, and byte 12 into
  A only; the digest is word C of \<^verbatim>\<open>final\<close> applied to this state, with no \<^verbatim>\<open>mix\<close> between.
  The statement is about the values computed; whether ISO C defines the computation is
  the subject of \<open>jenkins_undefined_sample\<close> below.
\<close>

theorem absorb_state:
  "(let key = val (jenkins_key src_ip dst_ip src_port dst_port protocol);
        init = 0xdeadbeef + 13 + seed;
        a = init + of_nat (le_value (take 4 key)) + ucast (key ! 12);
        b = init + of_nat (le_value (take 4 (drop 4 key)));
        c = init + of_nat (le_value (take 4 (drop 8 key)))
    in val (jenkins_absorb key seed) = (a, b, c) \<and>
       val (jenkins_hash_5tuple src_ip dst_ip src_port dst_port protocol seed) =
         word_c (val (final a b c)))"
proof -
  let ?key = "bytes_u32 src_ip @ bytes_u32 dst_ip @ bytes_u16 src_port @ bytes_u16 dst_port @ [protocol]"
  have k: "val (jenkins_key src_ip dst_ip src_port dst_port protocol) = ?key"
    by (simp add: jenkins_key_bytes)
  have t: "take 4 ?key = bytes_u32 src_ip" "take 4 (drop 4 ?key) = bytes_u32 dst_ip"
    "take 4 (drop 8 ?key) = bytes_u16 src_port @ bytes_u16 dst_port" "?key ! 12 = protocol"
    by (simp_all add: nth_append)
  have h: "val (jenkins_hash_5tuple src_ip dst_ip src_port dst_port protocol seed) =
      word_c (val (case val (jenkins_absorb ?key seed) of (a, b, c) \<Rightarrow> final a b c))"
    by (simp add: jenkins_hash_val k word_c_def split_def)
  show ?thesis
    unfolding Let_def k t h absorb_val by simp
qed


text \<open>
  C2, as the program has it. The finalization of Variant B consists of seven paired
  operations (exclusive-or a word into another, then subtract that word rotated) with the
  rotate sequence 14, 11, 25, 16, 4, 14, 24, and for every 5-tuple and seed the digest
  is word C of the state after these seven operations.
\<close>

theorem final_seven_operations:
  "final a b c = Outcome True (final_seven a b c) \<and>
   val (jenkins_hash_5tuple src_ip dst_ip src_port dst_port protocol seed) =
     word_c (case val (jenkins_absorb (val (jenkins_key src_ip dst_ip src_port dst_port protocol)) seed)
             of (a, b, c) \<Rightarrow> final_seven a b c)"
  using final_eq jenkins_hash_final_seven by simp


text \<open>
  C2, as stated, fails: for the 5-tuple 10.0.0.1, 8.8.8.8, 12345, 80, 6 and the seed
  \<open>0x12345678\<close> the digest is 809862305, whereas word C after the six operations with
  the rotate sequence 14, 11, 25, 16, 4, 14 is 1605842845.
\<close>

theorem final_six_counterexample:
  "val (jenkins_absorb (val (jenkins_key 0x0A000001 0x08080808 12345 80 6)) 0x12345678) =
     (4209120635, 4176092540, 4046603693) \<and>
   val (jenkins_hash_5tuple 0x0A000001 0x08080808 12345 80 6 0x12345678) = 809862305 \<and>
   word_c (final_six 4209120635 4176092540 4046603693) = 1605842845 \<and>
   val (jenkins_hash_5tuple 0x0A000001 0x08080808 12345 80 6 0x12345678) \<noteq>
     word_c (final_six 4209120635 4176092540 4046603693)"
proof -
  have 1: "val (jenkins_absorb (val (jenkins_key 0x0A000001 0x08080808 12345 80 6)) 0x12345678) =
     (4209120635, 4176092540, 4046603693)"
    by (simp add: jenkins_key_bytes absorb_val le_value_append del: le_value.simps)
  have 2: "word_c (final_six 4209120635 4176092540 4046603693) = 1605842845"
    by (simp add: final_six_def xor_sub_def word_c_def word_rotl_shift Let_def)
  have 3: "word_c (final_seven 4209120635 4176092540 4046603693) = 809862305"
    by (simp add: final_seven_def final_six_def xor_sub_def word_c_def word_rotl_shift Let_def)
  have 4: "val (jenkins_hash_5tuple 0x0A000001 0x08080808 12345 80 6 0x12345678) = 809862305"
    unfolding jenkins_hash_final_seven 1 prod.case by (fact 3)
  show ?thesis
    unfolding 1 2 4 by simp
qed


section \<open>Definedness\<close>

text \<open>
  C10. A rotation is defined exactly for the counts from 1 to 31, where both of its
  shift counts lie strictly between 0 and 32. Every rotation that the two variants
  perform is defined, for every argument: those of Variant A are by 15 and 13, those of
  \<^verbatim>\<open>mix\<close> by 4, 6, 8, 16, 19, 4 and those of \<^verbatim>\<open>final\<close> by 14, 11, 25, 16, 4, 14, 24, and
  each computes the rotation of the word.
\<close>

theorem rotate_counts_in_range:
  "defined (rotl32 x r) = (1 \<le> r \<and> r \<le> 31) \<and>
   defined (rot x k) = (1 \<le> k \<and> k \<le> 31) \<and>
   defined (murmurhash3_5tuple e src_ip dst_ip src_port dst_port protocol seed) \<and>
   rotl32 x 15 = Outcome True (word_rotl 15 x) \<and>
   rotl32 x 13 = Outcome True (word_rotl 13 x) \<and>
   mix a b c = Outcome True (mix_reference a b c) \<and>
   final a b c = Outcome True (final_seven a b c)"
  by (auto simp add: murmurhash3_defined mix_eq final_eq rotl32_eq)


text \<open>
  C6 fails for Variant B on the sample 5-tuple of its own \<^verbatim>\<open>main\<close>. The byte
  \<^verbatim>\<open>key[3]\<close> is \<open>0xC0\<close>; it is promoted to \<^verbatim>\<open>int\<close>, and \<^verbatim>\<open>key[3] << 24\<close> is
  \<open>0xC0000000\<close>, which \<^verbatim>\<open>int\<close> cannot represent: the shift does not wrap modulo \<open>2 ^ 32\<close>, ISO C
  leaves it undefined.
\<close>

theorem jenkins_undefined_sample:
  "\<not> defined (jenkins_hash_5tuple 0xC0A80101 0x08080808 12345 80 6 0x12345678)"
  by (simp add: jenkins_hash_5tuple_def jenkins_key_bytes jenkins_absorb_def defined_le_word
       bytes_u32_def bytes_u16_def Let_def)


text \<open>
  Variant B is defined exactly when the top bytes of both addresses and of the
  destination port are below \<open>0x80\<close>; Variant A is defined on every input and host.
\<close>

theorem jenkins_defined_iff:
  "defined (jenkins_hash_5tuple src_ip dst_ip src_port dst_port protocol seed) =
     (src_ip < 0x80000000 \<and> dst_ip < 0x80000000 \<and> dst_port < 0x8000)"
  by (simp add: jenkins_hash_5tuple_def jenkins_key_bytes jenkins_absorb_def defined_le_word
       bytes_u32_def bytes_u16_def Let_def final_eq split_def high_byte_less high_byte_less16)


theorem murmurhash3_5tuple_total:
  "defined (murmurhash3_5tuple e src_ip dst_ip src_port dst_port protocol seed)"
  by (simp add: murmurhash3_5tuple_host)

section \<open>Byte order of the host\<close>

text \<open>
  C8 fails for Variant A: on the sample 5-tuple of its \<^verbatim>\<open>main\<close> the digest is 1419635995
  on a little-endian host and 290174495 on a big-endian host.
\<close>

theorem murmur3_host_dependent:
  "murmurhash3_5tuple Little 0xC0A80101 0x08080808 12345 80 6 0x12345678 = Outcome True 1419635995 \<and>
   murmurhash3_5tuple Big 0xC0A80101 0x08080808 12345 80 6 0x12345678 = Outcome True 290174495"
  by (simp add: murmurhash3_5tuple_host avalanche_def mix_block_def scramble_def store_u16_def
       load_u32_def host_order_def bytes_u16_def word_rotl_shift Let_def)


section \<open>Injectivity of the serialization\<close>

text \<open>
  C9. The five fields are recovered from the 13-byte key of Variant B, and from the
  array of Variant A on either host; hence two 5-tuples have the same key exactly when
  they are equal. In Variant B the three words added into A, B and C together with byte
  12 give the five fields back.
\<close>

theorem key_serialization_injective:
  "decode_key (val (jenkins_key src_ip dst_ip src_port dst_port protocol)) =
     (src_ip, dst_ip, src_port, dst_port, protocol) \<and>
   decode_data e (murmur3_data e src_ip dst_ip src_port dst_port protocol) =
     (src_ip, dst_ip, src_port, dst_port, protocol) \<and>
   (val (jenkins_key src_ip dst_ip src_port dst_port protocol) =
      val (jenkins_key src_ip' dst_ip' src_port' dst_port' protocol')) =
     ((src_ip, dst_ip, src_port, dst_port, protocol) =
      (src_ip', dst_ip', src_port', dst_port', protocol')) \<and>
   (murmur3_data e src_ip dst_ip src_port dst_port protocol =
      murmur3_data e src_ip' dst_ip' src_port' dst_port' protocol') =
     ((src_ip, dst_ip, src_port, dst_port, protocol) =
      (src_ip', dst_ip', src_port', dst_port', protocol')) \<and>
   (let key = val (jenkins_key src_ip dst_ip src_port dst_port protocol);
        w0 = val (le_word (key ! 0) (key ! 1) (key ! 2) (key ! 3));
        w1 = val (le_word (key ! 4) (key ! 5) (key ! 6) (key ! 7));
        w2 = val (le_word (key ! 8) (key ! 9) (key ! 10) (key ! 11))
    in (w0, w1, ucast w2, ucast (drop_bit 16 w2), key ! 12)) =
     (src_ip, dst_ip, src_port, dst_port, protocol)"
proof -
  have B: "decode_key (val (jenkins_key a b c d p)) = (a, b, c, d, p)" for a b c d p
    by (simp add: decode_key_def jenkins_key_bytes nth_append del: le_value.simps)
  have A: "decode_data e (murmur3_data e a b c d p) = (a, b, c, d, p)" for a b c d p
    unfolding decode_data_def murmur3_data_fields host_order_store
    by (simp add: decode_key_def nth_append del: le_value.simps)
  have "(src_ip, dst_ip, src_port, dst_port, protocol) = (src_ip', dst_ip', src_port', dst_port', protocol')"
    if eq: "val (jenkins_key src_ip dst_ip src_port dst_port protocol) =
      val (jenkins_key src_ip' dst_ip' src_port' dst_port' protocol')"
  proof -
    have "decode_key (val (jenkins_key src_ip dst_ip src_port dst_port protocol)) =
        decode_key (val (jenkins_key src_ip' dst_ip' src_port' dst_port' protocol'))"
      by (rule arg_cong [OF eq])
    then show ?thesis
      unfolding B .
  qed
  moreover have "(src_ip, dst_ip, src_port, dst_port, protocol) = (src_ip', dst_ip', src_port', dst_port', protocol')"
    if eq: "murmur3_data e src_ip dst_ip src_port dst_port protocol =
      murmur3_data e src_ip' dst_ip' src_port' dst_port' protocol'"
  proof -
    have "decode_data e (murmur3_data e src_ip dst_ip src_port dst_port protocol) =
        decode_data e (murmur3_data e src_ip' dst_ip' src_port' dst_port' protocol')"
      by (rule arg_cong [OF eq])
    then show ?thesis
      unfolding A .
  qed
  ultimately show ?thesis
    using A B absorbed_words [of src_ip dst_ip src_port dst_port protocol] by blast
qed


end
